theory Spec2Isabelle
  imports Complex_Main "HOL-Library.Word"
begin

section \<open>The GPU hasher task of gerbil (include/gerbil/GpuHasher.h)\<close>

text \<open>
  \<^verbatim>\<open>HasherTask<K>\<close> owns one counting hash table per GPU device. Its method
  \<^verbatim>\<open>hash\<close> starts one thread per device; each thread drains its own queue of k-mer
  bundles into its own table, and extracts, reports its throughput and resizes the table
  whenever the temporary file of the bundles changes.

  The classes \<^verbatim>\<open>KmerCountingHashTable\<close>, \<^verbatim>\<open>KmerDistributer\<close>, \<^verbatim>\<open>TempFile\<close>,
  \<^verbatim>\<open>KMerBundle\<close> and \<^verbatim>\<open>SyncSwapQueueMPSC\<close> are only used by this header, so their
  operations are parameters of the model (the record \<open>collaborators\<close>), and so are the
  two places where the code computes with \<^verbatim>\<open>float\<close>.
\<close>

subsection \<open>Data\<close>

type_synonym u8 = "8 word"
type_synonym u32 = "32 word"
type_synonym u64 = "64 word"

text \<open>
  A k-mer bundle, as far as the hasher looks at it: \<^verbatim>\<open>getTempFileId()\<close> and a payload
  which only the table reads.
\<close>

datatype 'k KMerBundle = KMerBundle (getTempFileId: u32) (kmers: 'k)

text \<open>
  What can go wrong: an integer division by zero (undefined behaviour in C++, a trap on
  the usual hardware), the \<^verbatim>\<open>std::runtime_error\<close> thrown with a message, and
  the conversion of a \<^verbatim>\<open>float\<close> to \<^verbatim>\<open>uint64_t\<close> whose truncated value is not a
  \<^verbatim>\<open>uint64_t\<close> (undefined behaviour in C++).
\<close>

datatype error = DivisionByZero | RuntimeError string | FloatOutOfRange

text \<open>
  The calls by which a worker thread changes its table or talks to the distributor, in
  the order in which it makes them (the reads \<^verbatim>\<open>getKMersNumber\<close> and
  \<^verbatim>\<open>approximateUniqueKmers\<close> are not listed). The list of calls is a ghost field
  of the worker's state: the code does not keep it, the claims about ordering read it.
\<close>

datatype ('k, 'f) call =
    ExtractAndClear
  | UpdateThroughput bool u32 'f
  | GetSplitRatio bool u32 u32
  | Init u64
  | AddBundle "'k KMerBundle"

text \<open>
  The collaborators. \<open>'t\<close> is the state of one \<^verbatim>\<open>KmerCountingHashTable\<close>, \<open>'d\<close> the
  state of the \<^verbatim>\<open>KmerDistributer\<close> as this thread sees it, \<open>'f\<close> the type
  \<^verbatim>\<open>float\<close>.
  \<^item> \<open>to_float q\<close> is the conversion of the \<^verbatim>\<open>uint64_t\<close> quotient to \<^verbatim>\<open>float\<close>
    (line 163);
  \<^item> \<open>scale n r\<close> is \<^verbatim>\<open>n * r\<close> computed in floating point and converted to
    \<^verbatim>\<open>uint64_t\<close> (line 171);
  \<^item> \<open>elapsed n\<close> is what \<^verbatim>\<open>duration_cast<microseconds>(stop - start).count()\<close>
    gives for the \<open>n\<close>-th timed call of the thread; \<^verbatim>\<open>count()\<close> is a signed 64-bit
    integer, read with \<open>sint\<close>.
\<close>

record ('t, 'd, 'k, 'f) collaborators =
  extractAndClear :: "'t \<Rightarrow> 't"
  getKMersNumber :: "'t \<Rightarrow> u64"
  getUKMersNumber :: "'t \<Rightarrow> u64"
  getUKMersNumberBelowThreshold :: "'t \<Rightarrow> u64"
  init :: "u64 \<Rightarrow> 't \<Rightarrow> 't"
  addBundle :: "'k KMerBundle \<Rightarrow> 't \<Rightarrow> 't"
  updateThroughput :: "bool \<Rightarrow> u32 \<Rightarrow> 'f \<Rightarrow> 'd \<Rightarrow> 'd"
  getSplitRatio :: "bool \<Rightarrow> u32 \<Rightarrow> u32 \<Rightarrow> 'd \<Rightarrow> 'f \<times> 'd"
  approximateUniqueKmers :: "u32 \<Rightarrow> real \<Rightarrow> u64"
  to_float :: "u64 \<Rightarrow> 'f"
  scale :: "u64 \<Rightarrow> 'f \<Rightarrow> u64"
  elapsed :: "nat \<Rightarrow> u64"

text \<open>
  The local variables of the thread's lambda (lines 133 to 145), the two objects it
  mutates, the number of timed calls made so far and the ghost list of calls.
\<close>

record ('t, 'd, 'k, 'f) worker =
  table :: 't
  distributor :: 'd
  curTempFileId :: u32
  binKMers :: u64
  duration :: u64
  timed :: nat
  calls :: "('k, 'f) call list"

text \<open>The three atomic counters of the task (lines 64 to 66).\<close>

record stats =
  kMersNumber :: u64
  uKMersNumber :: u64
  btUKMersNumber :: u64

subsection \<open>The throughput quotient (line 163)\<close>

text \<open>
  \<^verbatim>\<open>processedKMers / duration.count()\<close> divides a \<^verbatim>\<open>uint64_t\<close> by an
  \<^verbatim>\<open>int64_t\<close>: the divisor is converted to \<^verbatim>\<open>uint64_t\<close> (the same 64 bits) and the
  division is unsigned. Dividing by zero is an error of the model.
\<close>

definition udiv :: "u64 \<Rightarrow> u64 \<Rightarrow> error + u64" where
  "udiv a b = (if b = 0 then Inl DivisionByZero else Inr (a div b))"

definition throughput :: "u64 \<Rightarrow> u64 \<Rightarrow> error + u64" where
  "throughput processedKMers dur =
     (if dur \<noteq> 0 then udiv processedKMers dur else Inr 0)"

subsection \<open>Single precision (lines 163 and 171)\<close>

text \<open>
  Line 171 multiplies the \<^verbatim>\<open>uint64_t\<close> estimate by the \<^verbatim>\<open>float\<close> ratio: the estimate
  is converted to \<^verbatim>\<open>float\<close>, the product is a \<^verbatim>\<open>float\<close>, and the initialisation of
  \<^verbatim>\<open>uint64_t newSize\<close> truncates it towards zero. Line 163 converts the \<^verbatim>\<open>uint64_t\<close>
  quotient to \<^verbatim>\<open>float\<close>.

  \<open>F32 m e\<close> is the finite value \<open>m * 2 ^ e\<close>. A conversion or a product is rounded to 24
  significant bits, to the nearest value and to the even one of two nearest values.
  Infinities and NaN are not values of the model, and the exponent has no bounds: a
  product that overflows is beyond every \<^verbatim>\<open>uint64_t\<close> in the code as in the model, and
  one below the normal range truncates to 0 in both.
\<close>

datatype f32 = F32 (mantissa: int) (exponent: int)

text \<open>The number of bits of \<open>m\<close> beyond 24.\<close>

fun excess_bits :: "nat \<Rightarrow> nat" where
  "excess_bits m = (if m < 2 ^ 24 then 0 else Suc (excess_bits (m div 2)))"

declare excess_bits.simps [simp del]

text \<open>\<open>m / 2 ^ k\<close> rounded to the nearest integer, to the even one at a tie.\<close>

definition round_to_even :: "nat \<Rightarrow> nat \<Rightarrow> nat" where
  "round_to_even m k =
     (let q = m div 2 ^ k; r = m mod 2 ^ k
      in if 2 ^ k < 2 * r \<or> (2 * r = 2 ^ k \<and> odd q) then q + 1 else q)"

definition f32_round :: "int \<Rightarrow> int \<Rightarrow> f32" where
  "f32_round m e =
     (let a = nat \<bar>m\<bar>; k = excess_bits a
      in F32 (sgn m * int (round_to_even a k)) (e + int k))"

text \<open>The conversion of a \<^verbatim>\<open>uint64_t\<close> to \<^verbatim>\<open>float\<close> and the product of two floats.\<close>

definition f32_of_u64 :: "u64 \<Rightarrow> f32" where
  "f32_of_u64 n = f32_round (uint n) 0"

definition f32_mul :: "f32 \<Rightarrow> f32 \<Rightarrow> f32" where
  "f32_mul a b = f32_round (mantissa a * mantissa b) (exponent a + exponent b)"

text \<open>
  The conversion of a \<^verbatim>\<open>float\<close> to \<^verbatim>\<open>uint64_t\<close>: the value is truncated towards
  zero, and the result is undefined when the truncated value is negative or \<open>2 ^ 64\<close> or
  more.
\<close>

definition f32_trunc :: "f32 \<Rightarrow> int" where
  "f32_trunc x =
     (if 0 \<le> exponent x then mantissa x * 2 ^ nat (exponent x)
      else sgn (mantissa x) * (\<bar>mantissa x\<bar> div 2 ^ nat (- exponent x)))"

definition f32_to_u64 :: "f32 \<Rightarrow> error + u64" where
  "f32_to_u64 x =
     (let v = f32_trunc x
      in if 0 \<le> v \<and> v < 2 ^ 64 then Inr (word_of_int v) else Inl FloatOutOfRange)"

text \<open>The right-hand side of line 171.\<close>

definition f32_scale :: "u64 \<Rightarrow> f32 \<Rightarrow> error + u64" where
  "f32_scale n r = f32_to_u64 (f32_mul (f32_of_u64 n) r)"

text \<open>
  The collaborators \<open>c\<close> with the two float computations of the header done in single
  precision. Where the conversion of line 171 is undefined, \<open>scale c\<close> says what comes
  out.
\<close>

definition single_precision ::
  "('t, 'd, 'k, f32) collaborators \<Rightarrow> ('t, 'd, 'k, f32) collaborators" where
  "single_precision c =
     c\<lparr>to_float := f32_of_u64,
       scale := (\<lambda>n r. case f32_scale n r of Inl e \<Rightarrow> scale c n r | Inr v \<Rightarrow> v)\<rparr>"

subsection \<open>One worker thread (lines 130 to 199)\<close>

definition worker_init :: "'t \<Rightarrow> 'd \<Rightarrow> ('t, 'd, 'k, 'f) worker" where
  "worker_init t d =
     \<lparr>table = t, distributor = d, curTempFileId = - 1, binKMers = 0, duration = 0,
      timed = 0, calls = []\<rparr>"

text \<open>The body of the \<^verbatim>\<open>if\<close> on a new file id (lines 153 to 178).\<close>

definition file_change ::
  "('t, 'd, 'k, 'f) collaborators \<Rightarrow> u32 \<Rightarrow> 'k KMerBundle \<Rightarrow> ('t, 'd, 'k, 'f) worker
     \<Rightarrow> error + ('t, 'd, 'k, 'f) worker" where
  "file_change c devID kmb w =
     (let t1 = extractAndClear c (table w);
          dur = duration w + elapsed c (timed w);
          processedKMers = getKMersNumber c t1 - binKMers w
      in case throughput processedKMers dur of
           Inl e \<Rightarrow> Inl e
         | Inr q \<Rightarrow>
             (let thr = to_float c q;
                  d1 = updateThroughput c True devID thr (distributor w);
                  fid = getTempFileId kmb;
                  (ratio, d2) = getSplitRatio c True devID fid d1;
                  newSize = scale c (approximateUniqueKmers c fid 0.9) ratio;
                  t2 = init c newSize t1
              in Inr (w\<lparr>table := t2, distributor := d2, curTempFileId := fid,
                        binKMers := getKMersNumber c t2, duration := 0,
                        timed := Suc (timed w),
                        calls := calls w @ [ExtractAndClear, UpdateThroughput True devID thr,
                                            GetSplitRatio True devID fid, Init newSize]\<rparr>)))"

text \<open>The timed insertion of the bundle (lines 182 to 185).\<close>

definition insert_bundle ::
  "('t, 'd, 'k, 'f) collaborators \<Rightarrow> 'k KMerBundle \<Rightarrow> ('t, 'd, 'k, 'f) worker
     \<Rightarrow> ('t, 'd, 'k, 'f) worker" where
  "insert_bundle c kmb w =
     w\<lparr>table := addBundle c kmb (table w),
       duration := duration w + elapsed c (timed w),
       timed := Suc (timed w),
       calls := calls w @ [AddBundle kmb]\<rparr>"

text \<open>One iteration of the \<^verbatim>\<open>while\<close> loop, for the bundle that was popped.\<close>

definition loop_body ::
  "('t, 'd, 'k, 'f) collaborators \<Rightarrow> u32 \<Rightarrow> 'k KMerBundle \<Rightarrow> ('t, 'd, 'k, 'f) worker
     \<Rightarrow> error + ('t, 'd, 'k, 'f) worker" where
  "loop_body c devID kmb w =
     (case (if curTempFileId w \<noteq> getTempFileId kmb then file_change c devID kmb w
            else Inr w) of
        Inl e \<Rightarrow> Inl e
      | Inr w1 \<Rightarrow> Inr (insert_bundle c kmb w1))"

text \<open>
  The loop \<^verbatim>\<open>while (kMerQueue->swapPop(kmb))\<close>. The queue is the list of the bundles
  it delivers before it is closed: \<^verbatim>\<open>swapPop\<close> blocks until there is a bundle or the
  queue is closed, and returns false once it is closed and empty.
\<close>

fun hash_loop ::
  "('t, 'd, 'k, 'f) collaborators \<Rightarrow> u32 \<Rightarrow> 'k KMerBundle list \<Rightarrow> ('t, 'd, 'k, 'f) worker
     \<Rightarrow> error + ('t, 'd, 'k, 'f) worker" where
  "hash_loop c devID [] w = Inr w"
| "hash_loop c devID (kmb # queue) w =
     (case loop_body c devID kmb w of
        Inl e \<Rightarrow> Inl e
      | Inr w1 \<Rightarrow> hash_loop c devID queue w1)"

text \<open>
  The whole thread: the loop, the last extraction (line 190) and the three additions to
  the counters of the task (lines 192 to 194). A result \<open>Inr\<close> is a thread that has
  run to its end.
\<close>

definition hash_worker ::
  "('t, 'd, 'k, 'f) collaborators \<Rightarrow> u32 \<Rightarrow> 'k KMerBundle list \<Rightarrow> 't \<Rightarrow> 'd \<Rightarrow> stats
     \<Rightarrow> error + (('t, 'd, 'k, 'f) worker \<times> stats)" where
  "hash_worker c devID queue t d st =
     (case hash_loop c devID queue (worker_init t d) of
        Inl e \<Rightarrow> Inl e
      | Inr w \<Rightarrow>
          (let t1 = extractAndClear c (table w)
           in Inr (w\<lparr>table := t1, calls := calls w @ [ExtractAndClear]\<rparr>,
                   st\<lparr>kMersNumber := kMersNumber st + getKMersNumber c t1,
                      uKMersNumber := uKMersNumber st + getUKMersNumber c t1,
                      btUKMersNumber :=
                        btUKMersNumber st + getUKMersNumberBelowThreshold c t1\<rparr>)))"

subsection \<open>The task: constructor and \<^verbatim>\<open>hash\<close> (lines 77 to 98 and 121 to 206)\<close>

text \<open>
  The fields of the task that the constructor sets. \<open>tables\<close> stays empty when the
  header is compiled without \<^verbatim>\<open>GPU\<close>: the member does not exist then.
\<close>

record ('t, 'd) HasherTask =
  numThreads :: u8
  thresholdMin :: u32
  tables :: "'t list"
  kmerDistributer :: 'd
  counters :: stats

text \<open>
  The loop of the constructor (lines 90 to 96), over the device numbers that are left.
  \<open>newTable i thr\<close> is the constructor of \<^verbatim>\<open>KmerCountingHashTable\<close> for device \<open>i\<close>,
  which is not in this header: it gives a table or throws. \<open>getMaxCapacity\<close> and
  \<open>updateCapacity\<close> are the table's and the distributor's methods of these names.
\<close>

fun create_tables ::
  "(u32 \<Rightarrow> u32 \<Rightarrow> error + 't) \<Rightarrow> ('t \<Rightarrow> u64) \<Rightarrow> (bool \<Rightarrow> u32 \<Rightarrow> u64 \<Rightarrow> 'd \<Rightarrow> 'd)
     \<Rightarrow> u32 \<Rightarrow> nat list \<Rightarrow> 't list \<Rightarrow> 'd \<Rightarrow> error + ('t list \<times> 'd)" where
  "create_tables newTable getMaxCapacity updateCapacity thr [] ts d = Inr (ts, d)"
| "create_tables newTable getMaxCapacity updateCapacity thr (i # rest) ts d =
     (case newTable (of_nat i) thr of
        Inl e \<Rightarrow> Inl e
      | Inr t \<Rightarrow>
          create_tables newTable getMaxCapacity updateCapacity thr rest (ts @ [t])
            (updateCapacity True (of_nat i) (getMaxCapacity t) d))"

text \<open>
  The constructor. \<open>gpu\<close> says whether the header is compiled with \<^verbatim>\<open>GPU\<close>
  defined. Without it the constructor only stores its arguments.
\<close>

definition HasherTask_new ::
  "bool \<Rightarrow> (u32 \<Rightarrow> u32 \<Rightarrow> error + 't) \<Rightarrow> ('t \<Rightarrow> u64) \<Rightarrow> (bool \<Rightarrow> u32 \<Rightarrow> u64 \<Rightarrow> 'd \<Rightarrow> 'd)
     \<Rightarrow> u8 \<Rightarrow> 'd \<Rightarrow> u32 \<Rightarrow> error + ('t, 'd) HasherTask" where
  "HasherTask_new gpu newTable getMaxCapacity updateCapacity n d thr =
     (let st0 = \<lparr>kMersNumber = 0, uKMersNumber = 0, btUKMersNumber = 0\<rparr>
      in if gpu then
           (case create_tables newTable getMaxCapacity updateCapacity thr [0..<unat n] [] d of
              Inl e \<Rightarrow> Inl e
            | Inr (ts, d1) \<Rightarrow>
                Inr \<lparr>numThreads = n, thresholdMin = thr, tables = ts, kmerDistributer = d1,
                     counters = st0\<rparr>)
         else Inr \<lparr>numThreads = n, thresholdMin = thr, tables = [], kmerDistributer = d,
                   counters = st0\<rparr>)"

text \<open>
  The loop of \<^verbatim>\<open>hash\<close> over the device numbers that are left: with \<^verbatim>\<open>GPU\<close> it
  starts the thread of the device (each thread then runs \<open>hash_worker\<close>), without it
  the body throws. The result is the list of the devices whose thread was started.
\<close>

fun spawn :: "bool \<Rightarrow> nat list \<Rightarrow> u32 list \<Rightarrow> error + u32 list" where
  "spawn gpu [] started = Inr started"
| "spawn gpu (devID # rest) started =
     (if gpu then spawn gpu rest (started @ [of_nat devID])
      else Inl (RuntimeError ''Gerbil Error! Method not callable without GPU support!''))"

definition hash :: "bool \<Rightarrow> ('t, 'd) HasherTask \<Rightarrow> error + u32 list" where
  "hash gpu h = spawn gpu [0..<unat (numThreads h)] []"

subsection \<open>A small set of collaborators to run the model on\<close>

text \<open>
  A table that only counts the k-mers it was given (a bundle carries their number), a
  distributor that keeps the throughputs reported to it and always answers with the
  ratio 1, files of 1000 distinct k-mers, \<^verbatim>\<open>float\<close> taken as the integers, and a
  clock given by \<open>el\<close>.
\<close>

definition demo :: "(nat \<Rightarrow> u64) \<Rightarrow> (u64, u64 list, u64, u64) collaborators" where
  "demo el =
     \<lparr>extractAndClear = (\<lambda>t. t),
      getKMersNumber = (\<lambda>t. t),
      getUKMersNumber = (\<lambda>t. 0),
      getUKMersNumberBelowThreshold = (\<lambda>t. 0),
      init = (\<lambda>n t. t),
      addBundle = (\<lambda>b t. t + kmers b),
      updateThroughput = (\<lambda>g dev f d. d @ [f]),
      getSplitRatio = (\<lambda>g dev fid d. (1, d)),
      approximateUniqueKmers = (\<lambda>fid conf. 1000),
      to_float = (\<lambda>q. q),
      scale = (\<lambda>n r. n * r),
      elapsed = el\<rparr>"

definition stats0 :: stats where
  "stats0 = \<lparr>kMersNumber = 0, uKMersNumber = 0, btUKMersNumber = 0\<rparr>"

text \<open>
  For the constructor: a table constructor that never throws, tables of capacity 1000 and
  a distributor that keeps the capacities reported to it.
\<close>

definition demo_newTable :: "u32 \<Rightarrow> u32 \<Rightarrow> error + u64" where
  "demo_newTable i thr = Inr 0"

definition demo_getMaxCapacity :: "u64 \<Rightarrow> u64" where
  "demo_getMaxCapacity t = 1000"

definition demo_updateCapacity :: "bool \<Rightarrow> u32 \<Rightarrow> u64 \<Rightarrow> u64 list \<Rightarrow> u64 list" where
  "demo_updateCapacity g i cap d = d @ [cap]"

definition clock5 :: "nat \<Rightarrow> u64" where
  "clock5 n = 5"

definition clock0 :: "nat \<Rightarrow> u64" where
  "clock0 n = 0"

text \<open>
  The same with a table that also remembers the capacity it was initialised with, files
  of \<open>est\<close> distinct k-mers and a distributor that always answers with \<open>ratio\<close>.
\<close>

definition demo32 :: "u64 \<Rightarrow> f32 \<Rightarrow> (u64 \<times> u64, f32 list, u64, f32) collaborators" where
  "demo32 est ratio =
     \<lparr>extractAndClear = (\<lambda>t. t),
      getKMersNumber = (\<lambda>t. fst t),
      getUKMersNumber = (\<lambda>t. 0),
      getUKMersNumberBelowThreshold = (\<lambda>t. 0),
      init = (\<lambda>n t. (fst t, n)),
      addBundle = (\<lambda>b t. (fst t + kmers b, snd t)),
      updateThroughput = (\<lambda>g dev f d. d @ [f]),
      getSplitRatio = (\<lambda>g dev fid d. (ratio, d)),
      approximateUniqueKmers = (\<lambda>fid conf. est),
      to_float = (\<lambda>q. F32 0 0),
      scale = (\<lambda>n r. 0),
      elapsed = clock5\<rparr>"

subsection \<open>Reading the calls of a run\<close>

text \<open>The calls of a thread that has run to its end, none for a thread that failed.\<close>

definition calls_of :: "error + (('t, 'd, 'k, 'f) worker \<times> stats) \<Rightarrow> ('k, 'f) call list" where
  "calls_of r = (case r of Inl e \<Rightarrow> [] | Inr (w, st) \<Rightarrow> calls w)"

text \<open>
  \<open>reported_each devID cs\<close>: in the calls \<open>cs\<close>, every \<open>ExtractAndClear\<close> is followed at
  once by one \<open>UpdateThroughput\<close> for the device \<open>devID\<close>, and there is no other
  \<open>UpdateThroughput\<close>.
\<close>

fun reported_each :: "u32 \<Rightarrow> ('k, 'f) call list \<Rightarrow> bool" where
  "reported_each devID [] = True"
| "reported_each devID (ExtractAndClear # UpdateThroughput g dev f # cs) =
     (g \<and> dev = devID \<and> reported_each devID cs)"
| "reported_each devID (ExtractAndClear # cs) = False"
| "reported_each devID (UpdateThroughput g dev f # cs) = False"
| "reported_each devID (x # cs) = reported_each devID cs"

text \<open>
  The table and the distributor after the calls \<open>cs\<close> have been made on them, one after
  the other.
\<close>

fun replay_table :: "('t, 'd, 'k, 'f) collaborators \<Rightarrow> ('k, 'f) call list \<Rightarrow> 't \<Rightarrow> 't" where
  "replay_table c [] t = t"
| "replay_table c (ExtractAndClear # cs) t = replay_table c cs (extractAndClear c t)"
| "replay_table c (Init n # cs) t = replay_table c cs (init c n t)"
| "replay_table c (AddBundle kmb # cs) t = replay_table c cs (addBundle c kmb t)"
| "replay_table c (UpdateThroughput g dev f # cs) t = replay_table c cs t"
| "replay_table c (GetSplitRatio g dev fid # cs) t = replay_table c cs t"

fun replay_distributor :: "('t, 'd, 'k, 'f) collaborators \<Rightarrow> ('k, 'f) call list \<Rightarrow> 'd \<Rightarrow> 'd" where
  "replay_distributor c [] d = d"
| "replay_distributor c (UpdateThroughput g dev f # cs) d =
     replay_distributor c cs (updateThroughput c g dev f d)"
| "replay_distributor c (GetSplitRatio g dev fid # cs) d =
     replay_distributor c cs (snd (getSplitRatio c g dev fid d))"
| "replay_distributor c (ExtractAndClear # cs) d = replay_distributor c cs d"
| "replay_distributor c (Init n # cs) d = replay_distributor c cs d"
| "replay_distributor c (AddBundle kmb # cs) d = replay_distributor c cs d"

text \<open>The reports and the inserted bundles among the calls \<open>cs\<close>, in their order.\<close>

fun reports :: "('k, 'f) call list \<Rightarrow> (bool \<times> u32 \<times> 'f) list" where
  "reports [] = []"
| "reports (UpdateThroughput g dev f # cs) = (g, dev, f) # reports cs"
| "reports (x # cs) = reports cs"

fun inserted :: "('k, 'f) call list \<Rightarrow> 'k KMerBundle list" where
  "inserted [] = []"
| "inserted (AddBundle kmb # cs) = kmb # inserted cs"
| "inserted (x # cs) = inserted cs"

text \<open>
  \<open>file_changes cur fids\<close>: how often the file id changes along \<open>fids\<close>, when the id
  before the first is \<open>cur\<close>.
\<close>

fun file_changes :: "u32 \<Rightarrow> u32 list \<Rightarrow> nat" where
  "file_changes cur [] = 0"
| "file_changes cur (fid # fids) = (if cur \<noteq> fid then 1 else 0) + file_changes fid fids"

section \<open>Properties\<close>

subsection \<open>The worker never fails\<close>

lemma throughput_eq: "throughput p dur = Inr (if dur \<noteq> 0 then p div dur else 0)"
  by (simp add: throughput_def udiv_def)

lemma file_change_total: "\<exists>w1. file_change c devID kmb w = Inr w1"
  by (simp add: file_change_def throughput_eq Let_def split: prod.splits)

lemma loop_body_total: "\<exists>w1. loop_body c devID kmb w = Inr w1"
  using file_change_total [of c devID kmb w] by (auto simp add: loop_body_def)

lemma hash_loop_total: "\<exists>w1. hash_loop c devID queue w = Inr w1"
proof (induction queue arbitrary: w)
  case Nil
  show ?case by simp
next
  case (Cons kmb queue)
  obtain w1 where "loop_body c devID kmb w = Inr w1"
    using loop_body_total by blast
  with Cons.IH [of w1] show ?case by simp
qed

subsection \<open>The loop, piece by piece\<close>

lemma hash_loop_append:
  "hash_loop c devID (xs @ ys) w =
     (case hash_loop c devID xs w of Inl e \<Rightarrow> Inl e | Inr w1 \<Rightarrow> hash_loop c devID ys w1)"
  by (induction xs arbitrary: w) (auto split: sum.splits)

lemma loop_body_same:
  "curTempFileId w = getTempFileId kmb \<Longrightarrow> loop_body c devID kmb w = Inr (insert_bundle c kmb w)"
  by (simp add: loop_body_def)

lemma loop_body_change:
  "curTempFileId w \<noteq> getTempFileId kmb \<Longrightarrow> file_change c devID kmb w = Inr w1 \<Longrightarrow>
   loop_body c devID kmb w = Inr (insert_bundle c kmb w1)"
  by (simp add: loop_body_def)

lemma file_change_fields:
  assumes "file_change c devID kmb w = Inr w1"
  shows "\<exists>q ratio d2.
     throughput (getKMersNumber c (extractAndClear c (table w)) - binKMers w)
       (duration w + elapsed c (timed w)) = Inr q \<and>
     getSplitRatio c True devID (getTempFileId kmb)
       (updateThroughput c True devID (to_float c q) (distributor w)) = (ratio, d2) \<and>
     table w1 = init c (scale c (approximateUniqueKmers c (getTempFileId kmb) 0.9) ratio)
                  (extractAndClear c (table w)) \<and>
     distributor w1 = d2 \<and>
     curTempFileId w1 = getTempFileId kmb \<and>
     binKMers w1 = getKMersNumber c (table w1) \<and>
     duration w1 = 0 \<and>
     timed w1 = Suc (timed w) \<and>
     calls w1 = calls w @
       [ExtractAndClear, UpdateThroughput True devID (to_float c q),
        GetSplitRatio True devID (getTempFileId kmb),
        Init (scale c (approximateUniqueKmers c (getTempFileId kmb) 0.9) ratio)]"
  using assms
  by (auto simp add: file_change_def throughput_eq Let_def split: prod.splits)

lemma hash_loop_calls_grow:
  "hash_loop c devID queue w = Inr w1 \<Longrightarrow> \<exists>cs. calls w1 = calls w @ cs"
proof (induction queue arbitrary: w)
  case Nil
  then show ?case by simp
next
  case (Cons kmb queue)
  obtain w2 where b: "loop_body c devID kmb w = Inr w2"
    using loop_body_total by blast
  have "\<exists>cs. calls w2 = calls w @ cs"
  proof (cases "curTempFileId w = getTempFileId kmb")
    case True
    with b show ?thesis by (auto simp add: loop_body_same insert_bundle_def)
  next
    case False
    obtain w3 where f: "file_change c devID kmb w = Inr w3"
      using file_change_total by blast
    from file_change_fields [OF f] obtain xs where "calls w3 = calls w @ xs" by blast
    with b False f show ?thesis by (auto simp add: loop_body_change insert_bundle_def)
  qed
  moreover from Cons.prems b have "hash_loop c devID queue w2 = Inr w1" by simp
  from Cons.IH [OF this] obtain cs where "calls w1 = calls w2 @ cs" by blast
  ultimately show ?case by auto
qed

lemmas run_defs = hash_worker_def worker_init_def loop_body_def file_change_def
  insert_bundle_def throughput_eq Let_def

subsection \<open>The calls are the log of what happened to the table and the distributor\<close>

lemma replay_table_append:
  "replay_table c (xs @ ys) t = replay_table c ys (replay_table c xs t)"
  by (induction c xs t rule: replay_table.induct) simp_all

lemma replay_distributor_append:
  "replay_distributor c (xs @ ys) d = replay_distributor c ys (replay_distributor c xs d)"
  by (induction c xs d rule: replay_distributor.induct) simp_all

lemma reports_append: "reports (xs @ ys) = reports xs @ reports ys"
  by (induction xs rule: reports.induct) simp_all

lemma inserted_append: "inserted (xs @ ys) = inserted xs @ inserted ys"
  by (induction xs rule: inserted.induct) simp_all

lemma reported_each_append:
  "reported_each devID xs \<Longrightarrow> reported_each devID ys \<Longrightarrow> reported_each devID (xs @ ys)"
  by (induction devID xs rule: reported_each.induct) auto

lemma loop_body_log:
  assumes "loop_body c devID kmb w = Inr w1"
  shows "\<exists>xs pre. calls w1 = calls w @ xs \<and> xs = pre @ [AddBundle kmb] \<and>
     table w1 = replay_table c xs (table w) \<and>
     distributor w1 = replay_distributor c xs (distributor w) \<and>
     reported_each devID xs \<and>
     count_list xs ExtractAndClear = (if curTempFileId w \<noteq> getTempFileId kmb then 1 else 0) \<and>
     length (reports xs) = (if curTempFileId w \<noteq> getTempFileId kmb then 1 else 0) \<and>
     inserted xs = [kmb] \<and>
     curTempFileId w1 = getTempFileId kmb"
proof (cases "curTempFileId w = getTempFileId kmb")
  case True
  with assms have "w1 = insert_bundle c kmb w" by (simp add: loop_body_same)
  with True show ?thesis by (simp add: insert_bundle_def)
next
  case False
  obtain w2 where f: "file_change c devID kmb w = Inr w2"
    using file_change_total by blast
  from loop_body_change [OF False f] assms have w1: "w1 = insert_bundle c kmb w2" by simp
  from file_change_fields [OF f] obtain q ratio d2 n where
    r: "getSplitRatio c True devID (getTempFileId kmb)
         (updateThroughput c True devID (to_float c q) (distributor w)) = (ratio, d2)"
    and t: "table w2 = init c n (extractAndClear c (table w))"
    and d: "distributor w2 = d2"
    and i: "curTempFileId w2 = getTempFileId kmb"
    and cs: "calls w2 = calls w @
       [ExtractAndClear, UpdateThroughput True devID (to_float c q),
        GetSplitRatio True devID (getTempFileId kmb), Init n]"
    by blast
  let ?xs = "[ExtractAndClear, UpdateThroughput True devID (to_float c q),
        GetSplitRatio True devID (getTempFileId kmb), Init n, AddBundle kmb]"
  have "calls w1 = calls w @ ?xs" using w1 cs by (simp add: insert_bundle_def)
  moreover have "table w1 = replay_table c ?xs (table w)"
    using w1 t by (simp add: insert_bundle_def)
  moreover have "distributor w1 = replay_distributor c ?xs (distributor w)"
    using w1 d r by (simp add: insert_bundle_def)
  moreover have "curTempFileId w1 = getTempFileId kmb"
    using w1 i by (simp add: insert_bundle_def)
  moreover have "?xs = [ExtractAndClear, UpdateThroughput True devID (to_float c q),
        GetSplitRatio True devID (getTempFileId kmb), Init n] @ [AddBundle kmb]" by simp
  moreover have "reported_each devID ?xs" by simp
  moreover have "count_list ?xs ExtractAndClear =
      (if curTempFileId w \<noteq> getTempFileId kmb then 1 else 0)"
    using False by simp
  moreover have "length (reports ?xs) =
      (if curTempFileId w \<noteq> getTempFileId kmb then 1 else 0)"
    using False by simp
  moreover have "inserted ?xs = [kmb]" by simp
  ultimately show ?thesis by blast
qed

lemma hash_loop_log:
  "hash_loop c devID queue w = Inr w1 \<Longrightarrow>
   \<exists>cs. calls w1 = calls w @ cs \<and>
     table w1 = replay_table c cs (table w) \<and>
     distributor w1 = replay_distributor c cs (distributor w) \<and>
     reported_each devID cs \<and>
     count_list cs ExtractAndClear = file_changes (curTempFileId w) (map getTempFileId queue) \<and>
     length (reports cs) = file_changes (curTempFileId w) (map getTempFileId queue) \<and>
     inserted cs = queue \<and>
     (case queue of [] \<Rightarrow> cs = [] | _ # _ \<Rightarrow> \<exists>pre. cs = pre @ [AddBundle (last queue)])"
proof (induction queue arbitrary: w)
  case Nil
  then show ?case by simp
next
  case (Cons kmb queue)
  obtain w2 where b: "loop_body c devID kmb w = Inr w2"
    using loop_body_total by blast
  from loop_body_log [OF b] obtain xs pre where
    x: "calls w2 = calls w @ xs" "xs = pre @ [AddBundle kmb]"
      "table w2 = replay_table c xs (table w)"
      "distributor w2 = replay_distributor c xs (distributor w)"
      "reported_each devID xs"
      "count_list xs ExtractAndClear = (if curTempFileId w \<noteq> getTempFileId kmb then 1 else 0)"
      "length (reports xs) = (if curTempFileId w \<noteq> getTempFileId kmb then 1 else 0)"
      "inserted xs = [kmb]"
      "curTempFileId w2 = getTempFileId kmb"
    by blast
  from Cons.prems b have l: "hash_loop c devID queue w2 = Inr w1" by simp
  from Cons.IH [OF l] obtain cs where
    y: "calls w1 = calls w2 @ cs"
      "table w1 = replay_table c cs (table w2)"
      "distributor w1 = replay_distributor c cs (distributor w2)"
      "reported_each devID cs"
      "count_list cs ExtractAndClear = file_changes (curTempFileId w2) (map getTempFileId queue)"
      "length (reports cs) = file_changes (curTempFileId w2) (map getTempFileId queue)"
      "inserted cs = queue"
      "case queue of [] \<Rightarrow> cs = [] | _ # _ \<Rightarrow> \<exists>pre. cs = pre @ [AddBundle (last queue)]"
    by blast
  have "calls w1 = calls w @ (xs @ cs)" using x(1) y(1) by simp
  moreover have "table w1 = replay_table c (xs @ cs) (table w)"
    using x(3) y(2) by (simp add: replay_table_append)
  moreover have "distributor w1 = replay_distributor c (xs @ cs) (distributor w)"
    using x(4) y(3) by (simp add: replay_distributor_append)
  moreover have "reported_each devID (xs @ cs)"
    using x(5) y(4) by (rule reported_each_append)
  moreover have "count_list (xs @ cs) ExtractAndClear =
      file_changes (curTempFileId w) (map getTempFileId (kmb # queue))"
    using x(6) x(9) y(5) by simp
  moreover have "length (reports (xs @ cs)) =
      file_changes (curTempFileId w) (map getTempFileId (kmb # queue))"
    using x(7) x(9) y(6) by (simp add: reports_append)
  moreover have "inserted (xs @ cs) = kmb # queue"
    using x(8) y(7) by (simp add: inserted_append)
  moreover have "\<exists>pre. xs @ cs = pre @ [AddBundle (last (kmb # queue))]"
  proof (cases queue)
    case Nil
    with y(8) x(2) show ?thesis by simp
  next
    case (Cons a list)
    with y(8) obtain pre2 where "cs = pre2 @ [AddBundle (last queue)]" by auto
    then have "xs @ cs = (xs @ pre2) @ [AddBundle (last queue)]" by simp
    moreover from Cons have "last (kmb # queue) = last queue" by simp
    ultimately show ?thesis by metis
  qed
  then have "case kmb # queue of [] \<Rightarrow> xs @ cs = []
      | _ # _ \<Rightarrow> \<exists>pre. xs @ cs = pre @ [AddBundle (last (kmb # queue))]"
    by simp
  ultimately show ?case by blast
qed

subsection \<open>The order of the calls at a change of file\<close>

text \<open>
  C1. Let the queue deliver the bundles \<open>pre\<close>, then \<open>kmb\<close>, then \<open>post\<close>, and let the
  file id of \<open>kmb\<close> differ from the one the thread tracks after \<open>pre\<close>. Then the
  iteration for \<open>kmb\<close> makes exactly these calls, in this order: one
  \<open>extractAndClear\<close>, the report of the throughput, the request of the ratio, one
  \<open>init\<close>, and only then \<open>addBundle kmb\<close>, on the table that was extracted and then
  initialised. The calls of the whole run contain them at this place.
\<close>

theorem file_boundary_order:
  assumes "hash_loop c devID pre (worker_init t d) = Inr w"
      and "curTempFileId w \<noteq> getTempFileId kmb"
  shows "\<exists>w1 thr n wf st1 cs.
     hash_loop c devID (pre @ [kmb]) (worker_init t d) = Inr w1 \<and>
     calls w1 = calls w @
       [ExtractAndClear, UpdateThroughput True devID thr,
        GetSplitRatio True devID (getTempFileId kmb), Init n, AddBundle kmb] \<and>
     table w1 = addBundle c kmb (init c n (extractAndClear c (table w))) \<and>
     hash_worker c devID (pre @ kmb # post) t d st = Inr (wf, st1) \<and>
     calls wf = calls w1 @ cs"
proof -
  obtain w2 where f: "file_change c devID kmb w = Inr w2"
    using file_change_total by blast
  from file_change_fields [OF f] obtain thr n where
    c2: "calls w2 = calls w @ [ExtractAndClear, UpdateThroughput True devID thr,
        GetSplitRatio True devID (getTempFileId kmb), Init n]"
    and t2: "table w2 = init c n (extractAndClear c (table w))"
    by blast
  let ?w1 = "insert_bundle c kmb w2"
  have b: "loop_body c devID kmb w = Inr ?w1"
    using assms(2) f by (rule loop_body_change)
  have l1: "hash_loop c devID (pre @ [kmb]) (worker_init t d) = Inr ?w1"
    using assms(1) b by (simp add: hash_loop_append)
  obtain wl where l2: "hash_loop c devID post ?w1 = Inr wl"
    using hash_loop_total by blast
  from hash_loop_calls_grow [OF l2] obtain cs where cs: "calls wl = calls ?w1 @ cs" by blast
  have "hash_loop c devID (pre @ kmb # post) (worker_init t d) = Inr wl"
    using assms(1) b l2 by (simp add: hash_loop_append)
  then have "\<exists>wf st1. hash_worker c devID (pre @ kmb # post) t d st = Inr (wf, st1) \<and>
     calls wf = calls ?w1 @ (cs @ [ExtractAndClear])"
    using cs by (simp add: hash_worker_def Let_def)
  moreover have "calls ?w1 = calls w @
       [ExtractAndClear, UpdateThroughput True devID thr,
        GetSplitRatio True devID (getTempFileId kmb), Init n, AddBundle kmb]"
    using c2 by (simp add: insert_bundle_def)
  moreover have "table ?w1 = addBundle c kmb (init c n (extractAndClear c (table w)))"
    using t2 by (simp add: insert_bundle_def)
  ultimately show ?thesis using l1 by blast
qed

text \<open>
  The theorem at work: after one bundle of file 0 the thread tracks file 0, and a bundle
  of file 1 makes it extract, report, ask, initialise and insert, in this order.
\<close>

theorem file_boundary_order_witness:
  "hash_loop (demo clock5) 0 [KMerBundle 0 10] (worker_init 0 []) =
     Inr \<lparr>table = 10, distributor = [0], curTempFileId = 0, binKMers = 0, duration = 5,
          timed = 2,
          calls = [ExtractAndClear, UpdateThroughput True 0 0, GetSplitRatio True 0 0,
                   Init 1000, AddBundle (KMerBundle 0 10)]\<rparr> \<and>
   (\<exists>w1.
     hash_loop (demo clock5) 0 ([KMerBundle 0 10] @ [KMerBundle 1 7]) (worker_init 0 []) = Inr w1 \<and>
     (\<exists>thr n. calls w1 =
       [ExtractAndClear, UpdateThroughput True 0 0, GetSplitRatio True 0 0,
        Init 1000, AddBundle (KMerBundle 0 10)] @
       [ExtractAndClear, UpdateThroughput True 0 thr,
        GetSplitRatio True 0 1, Init n, AddBundle (KMerBundle 1 7)]))"
proof -
  let ?w = "\<lparr>table = 10, distributor = [0], curTempFileId = 0, binKMers = 0, duration = 5,
          timed = 2,
          calls = [ExtractAndClear, UpdateThroughput True 0 0, GetSplitRatio True 0 0,
                   Init 1000, AddBundle (KMerBundle 0 10)]\<rparr> :: (u64, u64 list, u64, u64) worker"
  have h1: "hash_loop (demo clock5) 0 [KMerBundle 0 10] (worker_init 0 []) = Inr ?w"
    by (simp add: run_defs demo_def clock5_def)
  have h2: "curTempFileId ?w \<noteq> getTempFileId (KMerBundle 1 (7::u64))"
    by simp
  from file_boundary_order [OF h1 h2, of Nil stats0] h1 show ?thesis
    by (simp del: hash_loop.simps) blast
qed

subsection \<open>Scenario A: three bundles of one file, then two of another\<close>

text \<open>
  C2, as the spec states it: on three bundles of file A and two of file B the thread
  extracts exactly twice. With A = 0 and B = 1 it extracts three times: the tracked
  file id starts at \<open>2 ^ 32 - 1\<close>, so the first bundle is a change of file too.
\<close>

theorem scenario_A_counterexample:
  "count_list (calls_of (hash_worker (demo clock5) 0
      [KMerBundle 0 10, KMerBundle 0 20, KMerBundle 0 30, KMerBundle 1 7, KMerBundle 1 8]
      0 [] stats0)) ExtractAndClear = 3"
  by (simp add: run_defs demo_def clock5_def calls_of_def)

text \<open>
  C2, amended: when file A differs from file B, the thread extracts exactly three times:
  when the first pop shows file A, when the fourth pop shows file B, and once the queue is
  closed. Only when file A is \<open>2 ^ 32 - 1\<close> itself the first of the three is missing
  and the thread extracts exactly twice.
\<close>

theorem scenario_A_extractions:
  assumes "a \<noteq> b"
  shows "\<exists>w st1 f1 n1 f2 n2.
     hash_worker c devID
       [KMerBundle a k1, KMerBundle a k2, KMerBundle a k3, KMerBundle b k4, KMerBundle b k5]
       t d st = Inr (w, st1) \<and>
     calls w =
       (if a \<noteq> - 1
        then [ExtractAndClear, UpdateThroughput True devID f1, GetSplitRatio True devID a,
              Init n1]
        else []) @
       [AddBundle (KMerBundle a k1), AddBundle (KMerBundle a k2), AddBundle (KMerBundle a k3),
        ExtractAndClear, UpdateThroughput True devID f2, GetSplitRatio True devID b, Init n2,
        AddBundle (KMerBundle b k4), AddBundle (KMerBundle b k5),
        ExtractAndClear] \<and>
     count_list (calls w) ExtractAndClear = (if a \<noteq> - 1 then 3 else 2)"
proof (cases "a = - 1")
  case True
  with assms show ?thesis
    by (simp add: run_defs split: prod.splits)
next
  case False
  with assms show ?thesis
    by (simp add: run_defs split: prod.splits)
qed

theorem scenario_A_extractions_witness:
  "(3 :: u32) \<noteq> 4 \<and>
   calls_of (hash_worker (demo clock5) 0
      [KMerBundle 3 10, KMerBundle 3 20, KMerBundle 3 30, KMerBundle 4 7, KMerBundle 4 8]
      0 [] stats0) =
     [ExtractAndClear, UpdateThroughput True 0 0, GetSplitRatio True 0 3, Init 1000,
      AddBundle (KMerBundle 3 10), AddBundle (KMerBundle 3 20), AddBundle (KMerBundle 3 30),
      ExtractAndClear, UpdateThroughput True 0 3, GetSplitRatio True 0 4, Init 1000,
      AddBundle (KMerBundle 4 7), AddBundle (KMerBundle 4 8),
      ExtractAndClear] \<and>
   (- 1 :: u32) \<noteq> 4 \<and>
   calls_of (hash_worker (demo clock5) 0
      [KMerBundle (- 1) 10, KMerBundle (- 1) 20, KMerBundle (- 1) 30, KMerBundle 4 7,
       KMerBundle 4 8]
      0 [] stats0) =
     [AddBundle (KMerBundle (- 1) 10), AddBundle (KMerBundle (- 1) 20),
      AddBundle (KMerBundle (- 1) 30),
      ExtractAndClear, UpdateThroughput True 0 3, GetSplitRatio True 0 4, Init 1000,
      AddBundle (KMerBundle 4 7), AddBundle (KMerBundle 4 8),
      ExtractAndClear]"
proof -
  have h1: "(3 :: u32) \<noteq> 4" by simp
  have h2: "(- 1 :: u32) \<noteq> 4" by simp
  from scenario_A_extractions [OF h1, of "demo clock5" 0 10 20 30 7 8 0 Nil stats0]
    scenario_A_extractions [OF h2, of "demo clock5" 0 10 20 30 7 8 0 Nil stats0] h1 h2
  show ?thesis
    by (simp add: run_defs demo_def clock5_def calls_of_def)
qed

subsection \<open>The reports of the throughput\<close>

text \<open>
  C3, as the spec states it: the last extraction, at the end of the stream, is followed
  by a report of the throughput too. On a queue that is closed at once the thread extracts
  once and reports nothing.
\<close>

theorem final_extraction_counterexample:
  "calls_of (hash_worker (demo clock5) 0 [] 0 [] stats0) = [ExtractAndClear]"
  by (simp add: run_defs demo_def calls_of_def)

text \<open>
  C3, amended: at every change of file the thread extracts, reads the table's number of
  k-mers, and reports the throughput of the window that ends, for its device, exactly once:
  the report is the next call after the extraction that changes the table or the
  distributor, it carries the quotient of the window, and the distributor receives it
  before the ratio is asked for. There are as many reports as changes of file. The last
  extraction, at the end of the stream, is followed by no report and by no other call on
  the distributor; the thread only reads the table's counters after it.
\<close>

theorem throughput_reports:
  "\<exists>wl w st1.
     hash_loop c devID queue (worker_init t d) = Inr wl \<and>
     hash_worker c devID queue t d st = Inr (w, st1) \<and>
     calls w = calls wl @ [ExtractAndClear] \<and>
     reported_each devID (calls wl) \<and>
     length (reports (calls w)) = file_changes (- 1) (map getTempFileId queue) \<and>
     count_list (calls w) ExtractAndClear = Suc (length (reports (calls w))) \<and>
     distributor wl = replay_distributor c (calls wl) d \<and>
     distributor w = distributor wl \<and>
     (\<forall>pre kmb post w0.
        queue = pre @ kmb # post \<and>
        hash_loop c devID pre (worker_init t d) = Inr w0 \<and>
        curTempFileId w0 \<noteq> getTempFileId kmb \<longrightarrow>
        (\<exists>q w1 n.
           throughput (getKMersNumber c (extractAndClear c (table w0)) - binKMers w0)
             (duration w0 + elapsed c (timed w0)) = Inr q \<and>
           hash_loop c devID (pre @ [kmb]) (worker_init t d) = Inr w1 \<and>
           calls w1 = calls w0 @
             [ExtractAndClear, UpdateThroughput True devID (to_float c q),
              GetSplitRatio True devID (getTempFileId kmb), Init n, AddBundle kmb] \<and>
           distributor w1 =
             snd (getSplitRatio c True devID (getTempFileId kmb)
                   (updateThroughput c True devID (to_float c q) (distributor w0)))))"
proof -
  let ?start = "worker_init t d :: ('a, 'b, 'c, 'd) worker"
  obtain wl where l: "hash_loop c devID queue ?start = Inr wl"
    using hash_loop_total by blast
  from hash_loop_log [OF l] obtain cs where
    a: "calls wl = calls ?start @ cs"
    and b: "distributor wl = replay_distributor c cs (distributor ?start)"
    and r: "reported_each devID cs"
    and e: "count_list cs ExtractAndClear = file_changes (curTempFileId ?start) (map getTempFileId queue)"
    and n: "length (reports cs) = file_changes (curTempFileId ?start) (map getTempFileId queue)"
    by blast
  from a have cs: "calls wl = cs" by (simp add: worker_init_def)
  let ?w = "wl\<lparr>table := extractAndClear c (table wl), calls := calls wl @ [ExtractAndClear]\<rparr>"
  have h: "\<exists>st1. hash_worker c devID queue t d st = Inr (?w, st1)"
    using l by (simp add: hash_worker_def Let_def)
  have 1: "calls ?w = calls wl @ [ExtractAndClear]" by simp
  have 2: "reported_each devID (calls wl)" using r cs by simp
  have 3: "length (reports (calls ?w)) = file_changes (- 1) (map getTempFileId queue)"
    using n cs by (simp add: reports_append worker_init_def)
  have 4: "count_list (calls ?w) ExtractAndClear = Suc (length (reports (calls ?w)))"
    using e n cs by (simp add: reports_append)
  have 5: "distributor wl = replay_distributor c (calls wl) d"
    using b cs by (simp add: worker_init_def)
  have 6: "distributor ?w = distributor wl" by simp
  have 7: "\<exists>q w1 n.
           throughput (getKMersNumber c (extractAndClear c (table w0)) - binKMers w0)
             (duration w0 + elapsed c (timed w0)) = Inr q \<and>
           hash_loop c devID (pre @ [kmb]) ?start = Inr w1 \<and>
           calls w1 = calls w0 @
             [ExtractAndClear, UpdateThroughput True devID (to_float c q),
              GetSplitRatio True devID (getTempFileId kmb), Init n, AddBundle kmb] \<and>
           distributor w1 =
             snd (getSplitRatio c True devID (getTempFileId kmb)
                   (updateThroughput c True devID (to_float c q) (distributor w0)))"
    if p: "hash_loop c devID pre ?start = Inr w0" and x: "curTempFileId w0 \<noteq> getTempFileId kmb"
    for pre kmb w0
  proof -
    obtain w2 where f: "file_change c devID kmb w0 = Inr w2"
      using file_change_total by blast
    from file_change_fields [OF f] obtain q ratio d2 where
      q: "throughput (getKMersNumber c (extractAndClear c (table w0)) - binKMers w0)
             (duration w0 + elapsed c (timed w0)) = Inr q"
      and g: "getSplitRatio c True devID (getTempFileId kmb)
         (updateThroughput c True devID (to_float c q) (distributor w0)) = (ratio, d2)"
      and d2: "distributor w2 = d2"
      and c2: "calls w2 = calls w0 @
         [ExtractAndClear, UpdateThroughput True devID (to_float c q),
          GetSplitRatio True devID (getTempFileId kmb),
          Init (scale c (approximateUniqueKmers c (getTempFileId kmb) 0.9) ratio)]"
      by blast
    let ?w1 = "insert_bundle c kmb w2"
    from loop_body_change [OF x f] p
    have "hash_loop c devID (pre @ [kmb]) ?start = Inr ?w1"
      by (simp add: hash_loop_append)
    moreover have "calls ?w1 = calls w0 @
         [ExtractAndClear, UpdateThroughput True devID (to_float c q),
          GetSplitRatio True devID (getTempFileId kmb),
          Init (scale c (approximateUniqueKmers c (getTempFileId kmb) 0.9) ratio),
          AddBundle kmb]"
      using c2 by (simp add: insert_bundle_def)
    moreover have "distributor ?w1 =
             snd (getSplitRatio c True devID (getTempFileId kmb)
                   (updateThroughput c True devID (to_float c q) (distributor w0)))"
      using d2 g by (simp add: insert_bundle_def)
    ultimately show ?thesis using q by blast
  qed
  from l h 1 2 3 4 5 6 7 show ?thesis by blast
qed

text \<open>
  A run over a bundle of file 0 and a bundle of file 1: two reports, the second with
  10 k-mers in 10 microseconds, and none after the last extraction.
\<close>

theorem throughput_reports_witness:
  "[KMerBundle 0 10, KMerBundle 1 (7::u64)] = [KMerBundle 0 10] @ KMerBundle 1 7 # [] \<and>
   hash_loop (demo clock5) 0 [KMerBundle 0 10] (worker_init 0 []) =
     Inr \<lparr>table = 10, distributor = [0], curTempFileId = 0, binKMers = 0, duration = 5,
          timed = 2,
          calls = [ExtractAndClear, UpdateThroughput True 0 0, GetSplitRatio True 0 0,
                   Init 1000, AddBundle (KMerBundle 0 10)]\<rparr> \<and>
   (0 :: u32) \<noteq> getTempFileId (KMerBundle 1 (7::u64)) \<and>
   hash_worker (demo clock5) 0 [KMerBundle 0 10, KMerBundle 1 7] 0 [] stats0 =
     Inr (\<lparr>table = 17, distributor = [0, 1], curTempFileId = 1, binKMers = 10, duration = 5,
           timed = 4,
           calls = [ExtractAndClear, UpdateThroughput True 0 0, GetSplitRatio True 0 0,
                    Init 1000, AddBundle (KMerBundle 0 10),
                    ExtractAndClear, UpdateThroughput True 0 1, GetSplitRatio True 0 1,
                    Init 1000, AddBundle (KMerBundle 1 7), ExtractAndClear]\<rparr>,
          \<lparr>kMersNumber = 17, uKMersNumber = 0, btUKMersNumber = 0\<rparr>)"
  using throughput_reports [of "demo clock5" 0 "[KMerBundle 0 10, KMerBundle 1 7]" 0 Nil stats0]
  by (simp add: run_defs demo_def clock5_def stats0_def)

subsection \<open>The resize at a change of file\<close>

lemma excess_bits_small: "m < 2 ^ 24 \<Longrightarrow> excess_bits m = 0"
  by (simp add: excess_bits.simps)

lemma excess_bits_large: "\<not> m < 2 ^ 24 \<Longrightarrow> excess_bits m = Suc (excess_bits (m div 2))"
  by (subst excess_bits.simps) simp

lemmas f32_defs = f32_scale_def f32_to_u64_def f32_trunc_def f32_mul_def f32_of_u64_def
  f32_round_def round_to_even_def excess_bits_small excess_bits_large Let_def


lemma f32_round_exact: "\<bar>m\<bar> < 2 ^ 24 \<Longrightarrow> f32_round m e = F32 m e"
proof -
  assume a: "\<bar>m\<bar> < 2 ^ 24"
  then have "nat \<bar>m\<bar> < 2 ^ 24" by (simp add: nat_less_iff)
  then have k: "excess_bits (nat \<bar>m\<bar>) = 0" by (rule excess_bits_small)
  have "sgn m * \<bar>m\<bar> = m" by (simp add: mult_sgn_abs)
  with k show ?thesis by (simp add: f32_round_def round_to_even_def Let_def)
qed

lemma round_to_even_nearest:
  "2 * \<bar>int (round_to_even a k) * 2 ^ k - int a\<bar> \<le> 2 ^ k"
proof -
  define q where "q = a div 2 ^ k"
  define r where "r = a mod 2 ^ k"
  have "a = q * 2 ^ k + r"
    unfolding q_def r_def by (rule div_mult_mod_eq [symmetric])
  then have "int a = int (q * 2 ^ k + r)" by simp
  then have a: "int a = int q * 2 ^ k + int r" by simp
  have "r < 2 ^ k" by (simp add: r_def)
  then have "int r < int (2 ^ k)" by (simp only: of_nat_less_iff)
  then have r: "int r < 2 ^ k" by simp
  show ?thesis
  proof (cases "2 ^ k < 2 * r \<or> (2 * r = 2 ^ k \<and> odd q)")
    case True
    then have v: "round_to_even a k = q + 1"
      by (simp add: round_to_even_def q_def r_def Let_def)
    from True have "2 ^ k \<le> 2 * r" by auto
    then have "int (2 ^ k) \<le> int (2 * r)" by (simp only: of_nat_le_iff)
    then have h: "(2::int) ^ k \<le> 2 * int r" by simp
    have "int (round_to_even a k) * 2 ^ k - int a = 2 ^ k - int r"
      using a v by (simp add: algebra_simps)
    with h r show ?thesis by simp
  next
    case False
    then have v: "round_to_even a k = q"
      by (simp add: round_to_even_def q_def r_def Let_def)
    from False have "2 * r \<le> 2 ^ k" by auto
    then have "int (2 * r) \<le> int (2 ^ k)" by (simp only: of_nat_le_iff)
    then have h: "2 * int r \<le> (2::int) ^ k" by simp
    have "int (round_to_even a k) * 2 ^ k - int a = - int r"
      using a v by simp
    with h show ?thesis by simp
  qed
qed

lemma excess_bits_bound: "a < 2 ^ (24 + excess_bits a)"
proof (induction a rule: excess_bits.induct)
  case (1 m)
  show ?case
  proof (cases "m < 2 ^ 24")
    case True
    then show ?thesis by (simp add: excess_bits_small)
  next
    case False
    from 1 [OF False] have "m div 2 < 2 ^ (24 + excess_bits (m div 2))" .
    then have "m < 2 * 2 ^ (24 + excess_bits (m div 2))" by linarith
    then have "m < 2 ^ (24 + Suc (excess_bits (m div 2)))"
      by (simp only: add_Suc_right power_Suc)
    with excess_bits_large [OF False] show ?thesis by simp
  qed
qed

lemma single_precision_fields:
  "extractAndClear (single_precision c) = extractAndClear c"
  "getKMersNumber (single_precision c) = getKMersNumber c"
  "init (single_precision c) = init c"
  "addBundle (single_precision c) = addBundle c"
  "updateThroughput (single_precision c) = updateThroughput c"
  "getSplitRatio (single_precision c) = getSplitRatio c"
  "approximateUniqueKmers (single_precision c) = approximateUniqueKmers c"
  "elapsed (single_precision c) = elapsed c"
  "to_float (single_precision c) = f32_of_u64"
  "f32_scale n r = Inr v \<Longrightarrow> scale (single_precision c) n r = v"
  by (simp_all add: single_precision_def)

lemma f32_of_u64_0: "f32_of_u64 0 = F32 0 0"
  by (simp add: f32_defs)

lemma f32_scale_2_24_1: "f32_scale 16777217 (F32 1 0) = Inr 16777216"
  by (simp add: f32_defs)

lemma f32_scale_tenth: "f32_scale 1005 (F32 13421773 (- 27)) = Inr 100"
  by (simp add: f32_defs)

text \<open>
  C4, as the spec states it: the new capacity is the product of the estimate and the
  ratio. For an estimate of 16777217 and the ratio 1 the product is 16777217, and the
  thread initialises the table with 16777216: the estimate is rounded when it is converted
  to \<^verbatim>\<open>float\<close>.
\<close>

theorem resize_capacity_counterexample:
  "file_change (single_precision (demo32 16777217 (F32 1 0))) 0 (KMerBundle 3 10)
     (worker_init (0, 0) []) =
     Inr \<lparr>table = (0, 16777216), distributor = [F32 0 0], curTempFileId = 3, binKMers = 0,
          duration = 0, timed = 1,
          calls = [ExtractAndClear, UpdateThroughput True 0 (F32 0 0), GetSplitRatio True 0 3,
                   Init 16777216]\<rparr> \<and>
   (16777216 :: u64) \<noteq> 16777217 * 1"
  by (simp add: run_defs single_precision_def demo32_def clock5_def f32_of_u64_0
      f32_scale_2_24_1)

text \<open>
  C4, amended: on a bundle of another file the thread asks the distributor for the ratio
  of its device and the new file, and initialises the extracted table with the estimate
  of the new file at 0.9, converted to \<^verbatim>\<open>float\<close>, times this ratio in single
  precision, truncated towards zero to a \<^verbatim>\<open>uint64_t\<close>; it takes the table's number of
  k-mers after that as the new base line, sets the elapsed time to 0 and tracks the new
  file id; then it inserts the bundle.
\<close>

theorem resize_on_file_change:
  fixes c :: "('t, 'd, 'k, f32) collaborators"
  assumes "curTempFileId w \<noteq> getTempFileId kmb"
  shows "\<exists>w1 q ratio d2.
     throughput (getKMersNumber c (extractAndClear c (table w)) - binKMers w)
       (duration w + elapsed c (timed w)) = Inr q \<and>
     getSplitRatio c True devID (getTempFileId kmb)
       (updateThroughput c True devID (f32_of_u64 q) (distributor w)) = (ratio, d2) \<and>
     file_change (single_precision c) devID kmb w = Inr w1 \<and>
     (\<forall>v. f32_to_u64
            (f32_mul (f32_of_u64 (approximateUniqueKmers c (getTempFileId kmb) 0.9)) ratio)
          = Inr v \<longrightarrow>
        table w1 = init c v (extractAndClear c (table w)) \<and>
        calls w1 = calls w @
          [ExtractAndClear, UpdateThroughput True devID (f32_of_u64 q),
           GetSplitRatio True devID (getTempFileId kmb), Init v]) \<and>
     distributor w1 = d2 \<and>
     binKMers w1 = getKMersNumber c (table w1) \<and>
     duration w1 = 0 \<and>
     curTempFileId w1 = getTempFileId kmb \<and>
     loop_body (single_precision c) devID kmb w =
       Inr (insert_bundle (single_precision c) kmb w1)"
proof -
  let ?c = "single_precision c"
  obtain w1 where f: "file_change ?c devID kmb w = Inr w1"
    using file_change_total by blast
  have b: "loop_body ?c devID kmb w = Inr (insert_bundle ?c kmb w1)"
    using assms f by (rule loop_body_change)
  from file_change_fields [OF f] obtain q ratio d2 where
    q: "throughput (getKMersNumber c (extractAndClear c (table w)) - binKMers w)
       (duration w + elapsed c (timed w)) = Inr q"
    and g: "getSplitRatio c True devID (getTempFileId kmb)
       (updateThroughput c True devID (f32_of_u64 q) (distributor w)) = (ratio, d2)"
    and t: "table w1 = init c (scale ?c (approximateUniqueKmers c (getTempFileId kmb) 0.9) ratio)
                  (extractAndClear c (table w))"
    and r: "distributor w1 = d2" "curTempFileId w1 = getTempFileId kmb"
      "binKMers w1 = getKMersNumber c (table w1)" "duration w1 = 0"
    and cs: "calls w1 = calls w @
       [ExtractAndClear, UpdateThroughput True devID (f32_of_u64 q),
        GetSplitRatio True devID (getTempFileId kmb),
        Init (scale ?c (approximateUniqueKmers c (getTempFileId kmb) 0.9) ratio)]"
    unfolding single_precision_fields by blast
  have "table w1 = init c v (extractAndClear c (table w)) \<and>
        calls w1 = calls w @
          [ExtractAndClear, UpdateThroughput True devID (f32_of_u64 q),
           GetSplitRatio True devID (getTempFileId kmb), Init v]"
    if "f32_to_u64
            (f32_mul (f32_of_u64 (approximateUniqueKmers c (getTempFileId kmb) 0.9)) ratio)
          = Inr v" for v
  proof -
    from that have "f32_scale (approximateUniqueKmers c (getTempFileId kmb) 0.9) ratio = Inr v"
      by (simp add: f32_scale_def)
    then have "scale ?c (approximateUniqueKmers c (getTempFileId kmb) 0.9) ratio = v"
      by (rule single_precision_fields)
    with t cs show ?thesis by simp
  qed
  with q g f r b show ?thesis by blast
qed

text \<open>An estimate of 1005 and the ratio 0.1 as a \<^verbatim>\<open>float\<close>: the capacity is 100.\<close>

theorem resize_on_file_change_witness:
  "curTempFileId (worker_init (0, 0) [] :: (u64 \<times> u64, f32 list, u64, f32) worker)
     \<noteq> getTempFileId (KMerBundle 3 (10::u64)) \<and>
   f32_to_u64 (f32_mul (f32_of_u64 1005) (F32 13421773 (- 27))) = Inr 100 \<and>
   file_change (single_precision (demo32 1005 (F32 13421773 (- 27)))) 0 (KMerBundle 3 10)
     (worker_init (0, 0) []) =
     Inr \<lparr>table = (0, 100), distributor = [F32 0 0], curTempFileId = 3, binKMers = 0,
          duration = 0, timed = 1,
          calls = [ExtractAndClear, UpdateThroughput True 0 (F32 0 0), GetSplitRatio True 0 3,
                   Init 100]\<rparr>"
proof -
  have h: "curTempFileId (worker_init (0, 0) [] :: (u64 \<times> u64, f32 list, u64, f32) worker)
     \<noteq> getTempFileId (KMerBundle 3 (10::u64))"
    by (simp add: worker_init_def)
  have v: "f32_to_u64 (f32_mul (f32_of_u64 1005) (F32 13421773 (- 27))) = Inr 100"
    using f32_scale_tenth by (simp add: f32_scale_def)
  from resize_on_file_change [OF h, of "demo32 1005 (F32 13421773 (- 27))" 0] h v
  show ?thesis
    by (simp add: run_defs single_precision_def demo32_def clock5_def f32_of_u64_0
        f32_scale_tenth)
qed

subsection \<open>The throughput of a window\<close>

text \<open>
  C5. The thread never fails, so no quotient divides by zero; the quotient is an
  unsigned number, so it is never negative; at an elapsed time of 0 it is 0, and a window
  of elapsed time 0 reports the throughput 0.
\<close>

theorem zero_duration_safety:
  "(\<exists>r. hash_worker c devID queue t d st = Inr r) \<and>
   (\<exists>q. throughput p dur = Inr q \<and> 0 \<le> uint q) \<and>
   throughput p 0 = Inr 0 \<and>
   (duration w + elapsed c (timed w) = 0 \<longrightarrow>
      (\<exists>w1 n. file_change c devID kmb w = Inr w1 \<and>
         calls w1 = calls w @
           [ExtractAndClear, UpdateThroughput True devID (to_float c 0),
            GetSplitRatio True devID (getTempFileId kmb), Init n]))"
proof -
  obtain wl where "hash_loop c devID queue (worker_init t d) = Inr wl"
    using hash_loop_total by blast
  then have "\<exists>r. hash_worker c devID queue t d st = Inr r"
    by (simp add: hash_worker_def Let_def)
  moreover have "\<exists>q. throughput p dur = Inr q \<and> 0 \<le> uint q"
    by (simp add: throughput_eq)
  moreover have "throughput p 0 = Inr 0"
    by (simp add: throughput_eq)
  moreover have "\<exists>w1 n. file_change c devID kmb w = Inr w1 \<and>
         calls w1 = calls w @
           [ExtractAndClear, UpdateThroughput True devID (to_float c 0),
            GetSplitRatio True devID (getTempFileId kmb), Init n]"
    if "duration w + elapsed c (timed w) = 0"
    using that by (simp add: file_change_def throughput_eq Let_def split: prod.splits)
  ultimately show ?thesis by blast
qed

theorem zero_duration_safety_witness:
  "duration (worker_init 0 [] :: (u64, u64 list, u64, u64) worker)
     + elapsed (demo clock0) (timed (worker_init 0 [] :: (u64, u64 list, u64, u64) worker)) = 0 \<and>
   file_change (demo clock0) 0 (KMerBundle 3 10) (worker_init 0 []) =
     Inr \<lparr>table = 0, distributor = [0], curTempFileId = 3, binKMers = 0, duration = 0,
          timed = 1,
          calls = [ExtractAndClear, UpdateThroughput True 0 (to_float (demo clock0) 0),
                   GetSplitRatio True 0 3, Init 1000]\<rparr>"
proof -
  have h: "duration (worker_init 0 [] :: (u64, u64 list, u64, u64) worker)
     + elapsed (demo clock0) (timed (worker_init 0 [] :: (u64, u64 list, u64, u64) worker)) = 0"
    by (simp add: worker_init_def demo_def clock0_def)
  from zero_duration_safety [of "demo clock0" 0 Nil 0 Nil stats0 0 0
      "worker_init 0 []" "KMerBundle 3 10"] h
  show ?thesis
    by (simp add: run_defs demo_def clock0_def)
qed

lemma positive_sint_uint:
  assumes "0 < sint (x :: u64)"
  shows "sint x = uint x \<and> x \<noteq> 0"
proof -
  have "sint x < 2 ^ 63"
    using sint_lt [of x] by simp
  then have "sint x < 2 ^ 64" by simp
  with assms have "take_bit 64 (sint x) = sint x"
    by (simp add: take_bit_int_eq_self)
  then have "uint x = sint x"
    using uint_sint [of x] by simp
  moreover from assms have "x \<noteq> 0" by auto
  ultimately show ?thesis by simp
qed

text \<open>
  C10. In a window of positive elapsed time the quotient is the number of k-mers of the
  window divided by the microseconds, rounded down, as unsigned integers; the thread
  reports its conversion to \<^verbatim>\<open>float\<close>. It is 0 exactly when the window has fewer
  k-mers than microseconds.
\<close>

theorem throughput_is_floor:
  assumes "0 < sint (duration w + elapsed c (timed w))"
  shows "\<exists>q w1 n.
     throughput (getKMersNumber c (extractAndClear c (table w)) - binKMers w)
       (duration w + elapsed c (timed w)) = Inr q \<and>
     uint q = uint (getKMersNumber c (extractAndClear c (table w)) - binKMers w)
                div sint (duration w + elapsed c (timed w)) \<and>
     (if uint (getKMersNumber c (extractAndClear c (table w)) - binKMers w)
           < sint (duration w + elapsed c (timed w))
      then q = 0 else 0 < uint q) \<and>
     file_change c devID kmb w = Inr w1 \<and>
     calls w1 = calls w @
       [ExtractAndClear, UpdateThroughput True devID (to_float c q),
        GetSplitRatio True devID (getTempFileId kmb), Init n]"
proof -
  let ?p = "getKMersNumber c (extractAndClear c (table w)) - binKMers w"
  let ?d = "duration w + elapsed c (timed w)"
  from positive_sint_uint [OF assms] have su: "sint ?d = uint ?d" and nz: "?d \<noteq> 0"
    by simp_all
  have pos: "0 < uint ?d" using assms su by simp
  have t: "throughput ?p ?d = Inr (?p div ?d)"
    using nz by (simp add: throughput_eq)
  have u: "uint (?p div ?d) = uint ?p div sint ?d"
    using su by (simp add: uint_div)
  have z: "?p div ?d = 0" if "uint ?p < sint ?d"
  proof -
    from that u have "uint (?p div ?d) = 0" by simp
    then show ?thesis by (simp add: uint_0_iff)
  qed
  have nzq: "0 < uint (?p div ?d)" if "\<not> uint ?p < sint ?d"
  proof -
    from that su pos have "0 < uint ?p div uint ?d"
      by (simp add: pos_imp_zdiv_pos_iff)
    with u su show ?thesis by simp
  qed
  obtain w1 where f: "file_change c devID kmb w = Inr w1"
    using file_change_total by blast
  from file_change_fields [OF f] t obtain n where
    "calls w1 = calls w @
       [ExtractAndClear, UpdateThroughput True devID (to_float c (?p div ?d)),
        GetSplitRatio True devID (getTempFileId kmb), Init n]"
    by auto
  with t u z nzq f show ?thesis by auto
qed

theorem throughput_is_floor_witness:
  "0 < sint (duration \<lparr>table = 107, distributor = [6], curTempFileId = 1, binKMers = 100,
                duration = 10, timed = 4, calls = []\<rparr>
             + elapsed (demo clock5) 4) \<and>
   file_change (demo clock5) 0 (KMerBundle 2 9)
     \<lparr>table = 107, distributor = [6], curTempFileId = 1, binKMers = 100,
      duration = 10, timed = 4, calls = []\<rparr> =
     Inr \<lparr>table = 107, distributor = [6, 0], curTempFileId = 2, binKMers = 107, duration = 0,
          timed = 5,
          calls = [ExtractAndClear, UpdateThroughput True 0 0, GetSplitRatio True 0 2,
                   Init 1000]\<rparr>"
proof -
  let ?w = "\<lparr>table = 107, distributor = [6], curTempFileId = 1, binKMers = 100,
      duration = 10, timed = 4, calls = []\<rparr> :: (u64, u64 list, u64, u64) worker"
  have h: "0 < sint (duration ?w + elapsed (demo clock5) (timed ?w))"
    by (simp add: demo_def clock5_def)
  from throughput_is_floor [OF h, of 0 "KMerBundle 2 9"] h show ?thesis
    by (simp add: run_defs demo_def clock5_def)
qed

lemma same_file_run:
  "\<forall>b\<in>set bs. getTempFileId b = curTempFileId w \<Longrightarrow>
   \<exists>w1. hash_loop c devID bs w = Inr w1 \<and>
     duration w1 = duration w + (\<Sum>i<length bs. elapsed c (timed w + i)) \<and>
     timed w1 = timed w + length bs \<and>
     curTempFileId w1 = curTempFileId w \<and>
     binKMers w1 = binKMers w \<and>
     calls w1 = calls w @ map AddBundle bs"
proof (induction bs arbitrary: w)
  case Nil
  then show ?case by simp
next
  case (Cons b bs)
  let ?w2 = "insert_bundle c b w"
  have b: "loop_body c devID b w = Inr ?w2"
    using Cons.prems by (simp add: loop_body_same)
  have "\<forall>x\<in>set bs. getTempFileId x = curTempFileId ?w2"
    using Cons.prems by (simp add: insert_bundle_def)
  from Cons.IH [OF this] obtain w1 where
    l: "hash_loop c devID bs ?w2 = Inr w1"
    and d: "duration w1 = duration ?w2 + (\<Sum>i<length bs. elapsed c (timed ?w2 + i))"
    and r: "timed w1 = timed ?w2 + length bs" "curTempFileId w1 = curTempFileId ?w2"
      "binKMers w1 = binKMers ?w2" "calls w1 = calls ?w2 @ map AddBundle bs"
    by blast
  have "(\<Sum>i<Suc (length bs). elapsed c (timed w + i)) =
        elapsed c (timed w) + (\<Sum>i<length bs. elapsed c (timed w + Suc i))"
    using sum.lessThan_Suc_shift [of "\<lambda>i. elapsed c (timed w + i)" "length bs"] by simp
  with d have "duration w1 = duration w + (\<Sum>i<length (b # bs). elapsed c (timed w + i))"
    by (simp add: insert_bundle_def add.assoc)
  with l b r show ?case by (simp add: insert_bundle_def)
qed

text \<open>
  C9. Over the bundles \<open>bs\<close> of the tracked file the elapsed time grows by the time of
  each insertion. At the next change of file the throughput is taken over this sum plus
  the time of the extraction itself, which is the timed call number
  \<open>timed w + length bs\<close>.
\<close>

theorem window_elapsed_includes_extraction:
  assumes "\<forall>b\<in>set bs. getTempFileId b = curTempFileId w"
      and "getTempFileId kmb \<noteq> curTempFileId w"
  shows "\<exists>w1 w2 q n.
     hash_loop c devID bs w = Inr w1 \<and>
     duration w1 = duration w + (\<Sum>i<length bs. elapsed c (timed w + i)) \<and>
     calls w1 = calls w @ map AddBundle bs \<and>
     throughput (getKMersNumber c (extractAndClear c (table w1)) - binKMers w)
       (duration w + (\<Sum>i<length bs. elapsed c (timed w + i))
          + elapsed c (timed w + length bs)) = Inr q \<and>
     hash_loop c devID (bs @ [kmb]) w = Inr w2 \<and>
     calls w2 = calls w1 @
       [ExtractAndClear, UpdateThroughput True devID (to_float c q),
        GetSplitRatio True devID (getTempFileId kmb), Init n, AddBundle kmb]"
proof -
  from same_file_run [OF assms(1)] obtain w1 where
    l: "hash_loop c devID bs w = Inr w1"
    and d: "duration w1 = duration w + (\<Sum>i<length bs. elapsed c (timed w + i))"
    and r: "timed w1 = timed w + length bs" "curTempFileId w1 = curTempFileId w"
      "binKMers w1 = binKMers w" "calls w1 = calls w @ map AddBundle bs"
    by blast
  obtain w3 where f: "file_change c devID kmb w1 = Inr w3"
    using file_change_total by blast
  from file_change_fields [OF f] obtain q n where
    q: "throughput (getKMersNumber c (extractAndClear c (table w1)) - binKMers w1)
       (duration w1 + elapsed c (timed w1)) = Inr q"
    and c3: "calls w3 = calls w1 @
       [ExtractAndClear, UpdateThroughput True devID (to_float c q),
        GetSplitRatio True devID (getTempFileId kmb), Init n]"
    by blast
  have "curTempFileId w1 \<noteq> getTempFileId kmb"
    using assms(2) r by simp
  from loop_body_change [OF this f] l
  have l2: "hash_loop c devID (bs @ [kmb]) w = Inr (insert_bundle c kmb w3)"
    by (simp add: hash_loop_append)
  have "calls (insert_bundle c kmb w3) = calls w1 @
       [ExtractAndClear, UpdateThroughput True devID (to_float c q),
        GetSplitRatio True devID (getTempFileId kmb), Init n, AddBundle kmb]"
    using c3 by (simp add: insert_bundle_def)
  with l d r q l2 show ?thesis by simp
qed

theorem window_elapsed_includes_extraction_witness:
  "getTempFileId (KMerBundle (- 1) (40::u64))
     = curTempFileId (worker_init 0 [] :: (u64, u64 list, u64, u64) worker) \<and>
   getTempFileId (KMerBundle (- 1) (60::u64))
     = curTempFileId (worker_init 0 [] :: (u64, u64 list, u64, u64) worker) \<and>
   getTempFileId (KMerBundle 1 (7::u64))
     \<noteq> curTempFileId (worker_init 0 [] :: (u64, u64 list, u64, u64) worker) \<and>
   hash_loop (demo clock5) 0 ([KMerBundle (- 1) 40, KMerBundle (- 1) 60] @ [KMerBundle 1 7])
     (worker_init 0 []) =
     Inr \<lparr>table = 107, distributor = [6], curTempFileId = 1, binKMers = 100, duration = 5,
          timed = 4,
          calls = [AddBundle (KMerBundle (- 1) 40), AddBundle (KMerBundle (- 1) 60),
                   ExtractAndClear, UpdateThroughput True 0 6, GetSplitRatio True 0 1,
                   Init 1000, AddBundle (KMerBundle 1 7)]\<rparr>"
proof -
  have h1: "\<forall>b\<in>set [KMerBundle (- 1) 40, KMerBundle (- 1) 60 :: u64 KMerBundle].
      getTempFileId b = curTempFileId (worker_init 0 [] :: (u64, u64 list, u64, u64) worker)"
    by (simp add: worker_init_def)
  have h2: "getTempFileId (KMerBundle 1 (7::u64))
     \<noteq> curTempFileId (worker_init 0 [] :: (u64, u64 list, u64, u64) worker)"
    by (simp add: worker_init_def)
  from window_elapsed_includes_extraction [OF h1 h2, of "demo clock5" 0] h1 h2
  show ?thesis
    by (simp add: run_defs demo_def clock5_def)
qed

subsection \<open>The end of the stream\<close>

text \<open>
  C6. For every queue and every table the loop ends. Up to then the thread has inserted
  the bundles of the queue, the insertion of the last one was its last call, and it has
  extracted once for each change of file. When the pop fails it makes exactly one more
  call, \<open>extractAndClear\<close>, on whatever the table holds, so that the run has one
  extraction more than changes of file; then it adds the table's three numbers to the
  counters and is done.
\<close>

theorem final_extraction:
  "\<exists>wl w st1.
     hash_loop c devID queue (worker_init t d) = Inr wl \<and>
     (case queue of [] \<Rightarrow> calls wl = []
      | _ # _ \<Rightarrow> \<exists>pre. calls wl = pre @ [AddBundle (last queue)]) \<and>
     inserted (calls wl) = queue \<and>
     count_list (calls wl) ExtractAndClear = file_changes (- 1) (map getTempFileId queue) \<and>
     table wl = replay_table c (calls wl) t \<and>
     hash_worker c devID queue t d st = Inr (w, st1) \<and>
     calls w = calls wl @ [ExtractAndClear] \<and>
     count_list (calls w) ExtractAndClear =
       Suc (file_changes (- 1) (map getTempFileId queue)) \<and>
     table w = extractAndClear c (table wl) \<and>
     distributor w = distributor wl \<and>
     st1 = st\<lparr>kMersNumber := kMersNumber st + getKMersNumber c (table w),
              uKMersNumber := uKMersNumber st + getUKMersNumber c (table w),
              btUKMersNumber := btUKMersNumber st + getUKMersNumberBelowThreshold c (table w)\<rparr>"
proof -
  let ?start = "worker_init t d :: ('a, 'b, 'c, 'd) worker"
  obtain wl where l: "hash_loop c devID queue ?start = Inr wl"
    using hash_loop_total by blast
  from hash_loop_log [OF l] obtain cs where
    a: "calls wl = calls ?start @ cs"
    and b: "table wl = replay_table c cs (table ?start)"
    and e: "count_list cs ExtractAndClear = file_changes (curTempFileId ?start) (map getTempFileId queue)"
    and i: "inserted cs = queue"
    and z: "case queue of [] \<Rightarrow> cs = [] | _ # _ \<Rightarrow> \<exists>pre. cs = pre @ [AddBundle (last queue)]"
    by blast
  from a have cs: "calls wl = cs" by (simp add: worker_init_def)
  let ?w = "wl\<lparr>table := extractAndClear c (table wl), calls := calls wl @ [ExtractAndClear]\<rparr>"
  let ?st = "st\<lparr>kMersNumber := kMersNumber st + getKMersNumber c (table ?w),
              uKMersNumber := uKMersNumber st + getUKMersNumber c (table ?w),
              btUKMersNumber := btUKMersNumber st + getUKMersNumberBelowThreshold c (table ?w)\<rparr>"
  have h: "hash_worker c devID queue t d st = Inr (?w, ?st)"
    using l by (simp add: hash_worker_def Let_def)
  have 1: "case queue of [] \<Rightarrow> calls wl = []
      | _ # _ \<Rightarrow> \<exists>pre. calls wl = pre @ [AddBundle (last queue)]"
    unfolding cs by (rule z)
  have 2: "inserted (calls wl) = queue" using i cs by simp
  have 3: "count_list (calls wl) ExtractAndClear = file_changes (- 1) (map getTempFileId queue)"
    using e cs by (simp add: worker_init_def)
  have 4: "table wl = replay_table c (calls wl) t"
    using b cs by (simp add: worker_init_def)
  have 5: "calls ?w = calls wl @ [ExtractAndClear]" by simp
  have 6: "count_list (calls ?w) ExtractAndClear =
       Suc (file_changes (- 1) (map getTempFileId queue))"
    using 3 by simp
  have 7: "table ?w = extractAndClear c (table wl)" by simp
  have 8: "distributor ?w = distributor wl" by simp
  from l 1 2 3 4 h 5 6 7 8 show ?thesis by blast
qed

text \<open>
  On a queue that is closed at once the thread extracts the table it was given, once; after
  two bundles of one file the closure adds one extraction to the one of the first bundle.
\<close>

theorem final_extraction_witness:
  "hash_worker (demo clock5) 0 [] 0 [] stats0 =
     Inr (\<lparr>table = 0, distributor = [], curTempFileId = - 1, binKMers = 0, duration = 0,
           timed = 0, calls = [ExtractAndClear]\<rparr>, stats0) \<and>
   calls_of (hash_worker (demo clock5) 0 [KMerBundle 3 10, KMerBundle 3 20] 0 [] stats0) =
     [ExtractAndClear, UpdateThroughput True 0 0, GetSplitRatio True 0 3, Init 1000,
      AddBundle (KMerBundle 3 10), AddBundle (KMerBundle 3 20), ExtractAndClear]"
  using final_extraction [of "demo clock5" 0 Nil 0 Nil stats0]
    final_extraction [of "demo clock5" 0 "[KMerBundle 3 10, KMerBundle 3 20]" 0 Nil stats0]
  by (simp add: run_defs demo_def clock5_def calls_of_def stats0_def)

subsection \<open>The first bundle\<close>

text \<open>
  C8. The tracked file id starts at \<open>2 ^ 32 - 1\<close>. A first bundle of any other file
  makes the thread extract the table it was given, report, ask for the ratio and
  initialise the table before it inserts the bundle, so that the bundle goes into the
  extracted and initialised table; a first bundle of the file \<open>2 ^ 32 - 1\<close> goes into
  the table as it was given, and the distributor is not called.
\<close>

theorem sentinel_first_bundle:
  fixes c :: "('t, 'd, 'k, 'f) collaborators"
  shows "unat (curTempFileId (worker_init t d :: ('t, 'd, 'k, 'f) worker)) = 2 ^ 32 - 1 \<and>
   (\<exists>q ratio d2 n w1 w st1 cs.
      throughput (getKMersNumber c (extractAndClear c t)) (elapsed c 0) = Inr q \<and>
      getSplitRatio c True devID (getTempFileId kmb)
        (updateThroughput c True devID (to_float c q) d) = (ratio, d2) \<and>
      n = scale c (approximateUniqueKmers c (getTempFileId kmb) 0.9) ratio \<and>
      loop_body c devID kmb (worker_init t d) = Inr w1 \<and>
      calls w1 =
        (if getTempFileId kmb \<noteq> - 1
         then [ExtractAndClear, UpdateThroughput True devID (to_float c q),
               GetSplitRatio True devID (getTempFileId kmb), Init n]
         else []) @ [AddBundle kmb] \<and>
      table w1 =
        (if getTempFileId kmb \<noteq> - 1
         then addBundle c kmb (init c n (extractAndClear c t))
         else addBundle c kmb t) \<and>
      distributor w1 = (if getTempFileId kmb \<noteq> - 1 then d2 else d) \<and>
      curTempFileId w1 = getTempFileId kmb \<and>
      hash_worker c devID (kmb # queue) t d st = Inr (w, st1) \<and>
      calls w = calls w1 @ cs \<and>
      table w = replay_table c (calls w) t)"
proof -
  let ?start = "worker_init t d :: ('t, 'd, 'k, 'f) worker"
  have "(- 1 :: u32) = 4294967295" by simp
  then have "unat (- 1 :: u32) = 4294967295" by (simp only: unat_numeral) simp
  then have s: "unat (curTempFileId ?start) = 2 ^ 32 - 1"
    by (simp add: worker_init_def)
  have "\<exists>q. throughput (getKMersNumber c (extractAndClear c t)) (elapsed c 0) = Inr q"
    by (simp add: throughput_eq)
  then obtain q where q: "throughput (getKMersNumber c (extractAndClear c t)) (elapsed c 0) = Inr q"
    by blast
  obtain ratio d2 where r: "getSplitRatio c True devID (getTempFileId kmb)
        (updateThroughput c True devID (to_float c q) d) = (ratio, d2)"
    by (cases "getSplitRatio c True devID (getTempFileId kmb)
        (updateThroughput c True devID (to_float c q) d)") blast
  define n where "n = scale c (approximateUniqueKmers c (getTempFileId kmb) 0.9) ratio"
  obtain w1 where b: "loop_body c devID kmb ?start = Inr w1"
    using loop_body_total by blast
  have f: "calls w1 =
        (if getTempFileId kmb \<noteq> - 1
         then [ExtractAndClear, UpdateThroughput True devID (to_float c q),
               GetSplitRatio True devID (getTempFileId kmb), Init n]
         else []) @ [AddBundle kmb] \<and>
      table w1 =
        (if getTempFileId kmb \<noteq> - 1
         then addBundle c kmb (init c n (extractAndClear c t))
         else addBundle c kmb t) \<and>
      distributor w1 = (if getTempFileId kmb \<noteq> - 1 then d2 else d) \<and>
      curTempFileId w1 = getTempFileId kmb"
    using b q r
    by (auto simp add: loop_body_def file_change_def insert_bundle_def worker_init_def
        Let_def n_def)
  obtain wl where l: "hash_loop c devID queue w1 = Inr wl"
    using hash_loop_total by blast
  from hash_loop_calls_grow [OF l] obtain cs where cs: "calls wl = calls w1 @ cs" by blast
  have l0: "hash_loop c devID (kmb # queue) ?start = Inr wl"
    using b l by simp
  from hash_loop_log [OF l0] have tl: "table wl = replay_table c (calls wl) t"
    by (auto simp add: worker_init_def)
  let ?w = "wl\<lparr>table := extractAndClear c (table wl), calls := calls wl @ [ExtractAndClear]\<rparr>"
  have h: "\<exists>st1. hash_worker c devID (kmb # queue) t d st = Inr (?w, st1)"
    using l0 by (simp add: hash_worker_def Let_def)
  have c1: "calls ?w = calls w1 @ (cs @ [ExtractAndClear])" using cs by simp
  have t1: "table ?w = replay_table c (calls ?w) t"
    using tl by (simp add: replay_table_append)
  from s q r n_def b f h c1 t1 show ?thesis by blast
qed

theorem sentinel_first_bundle_witness:
  "loop_body (demo clock5) 0 (KMerBundle 7 10) (worker_init 0 []) =
     Inr \<lparr>table = 10, distributor = [0], curTempFileId = 7, binKMers = 0, duration = 5,
          timed = 2,
          calls = [ExtractAndClear, UpdateThroughput True 0 0, GetSplitRatio True 0 7,
                   Init 1000, AddBundle (KMerBundle 7 10)]\<rparr> \<and>
   loop_body (demo clock5) 0 (KMerBundle (- 1) 10) (worker_init 0 []) =
     Inr \<lparr>table = 10, distributor = [], curTempFileId = - 1, binKMers = 0, duration = 5,
          timed = 1, calls = [AddBundle (KMerBundle (- 1) 10)]\<rparr> \<and>
   calls_of (hash_worker (demo clock5) 0 [KMerBundle 7 10] 0 [] stats0) =
     [ExtractAndClear, UpdateThroughput True 0 0, GetSplitRatio True 0 7, Init 1000,
      AddBundle (KMerBundle 7 10), ExtractAndClear] \<and>
   calls_of (hash_worker (demo clock5) 0 [KMerBundle (- 1) 10] 0 [] stats0) =
     [AddBundle (KMerBundle (- 1) 10), ExtractAndClear]"
  using sentinel_first_bundle [of 0 "[]" "demo clock5" 0 "KMerBundle 7 10" Nil stats0]
    sentinel_first_bundle [of 0 "[]" "demo clock5" 0 "KMerBundle (- 1) 10" Nil stats0]
  by (simp add: run_defs demo_def clock5_def calls_of_def)

subsection \<open>Construction and start\<close>

lemma create_tables_fails:
  "isl (create_tables newTable gmc uc thr ds ts d) = (\<exists>i\<in>set ds. isl (newTable (of_nat i) thr))"
  by (induction ds arbitrary: ts d) (auto split: sum.splits)

lemma spawn_gpu: "spawn True ds started = Inr (started @ map of_nat ds)"
  by (induction ds arbitrary: started) simp_all

lemma spawn_no_gpu:
  "ds \<noteq> [] \<Longrightarrow>
   spawn False ds started = Inl (RuntimeError ''Gerbil Error! Method not callable without GPU support!'')"
  by (cases ds) simp_all

text \<open>
  C7, as the spec states it: the construction fails when more devices are asked for than
  there are. Compiled without \<^verbatim>\<open>GPU\<close> there is no device, and the construction for one
  device succeeds.
\<close>

theorem construction_counterexample:
  "HasherTask_new False demo_newTable demo_getMaxCapacity demo_updateCapacity 1 [] 2 =
     Inr \<lparr>numThreads = 1, thresholdMin = 2, tables = [], kmerDistributer = [],
          counters = stats0\<rparr>"
  by (simp add: HasherTask_new_def stats0_def)

text \<open>
  C7, amended: compiled without \<^verbatim>\<open>GPU\<close> the construction succeeds for every number of
  devices, and \<^verbatim>\<open>hash\<close> throws its runtime error at the first device, having started
  no thread, whenever the number of devices is not 0. Compiled with \<^verbatim>\<open>GPU\<close>,
  \<^verbatim>\<open>hash\<close> starts a thread for every device, and the construction fails exactly when
  the constructor of the table of one of the devices does: the task compares the number
  of devices with nothing.
\<close>

theorem configuration_failure:
  "HasherTask_new False newTable gmc uc n d thr =
     Inr \<lparr>numThreads = n, thresholdMin = thr, tables = [], kmerDistributer = d,
          counters = stats0\<rparr> \<and>
   (numThreads h \<noteq> 0 \<longrightarrow>
      hash False h = Inl (RuntimeError ''Gerbil Error! Method not callable without GPU support!'')) \<and>
   hash True h = Inr (map of_nat [0..<unat (numThreads h)]) \<and>
   isl (HasherTask_new True newTable gmc uc n d thr) =
     (\<exists>i<unat n. isl (newTable (of_nat i) thr))"
proof -
  have a: "HasherTask_new False newTable gmc uc n d thr =
     Inr \<lparr>numThreads = n, thresholdMin = thr, tables = [], kmerDistributer = d,
          counters = stats0\<rparr>"
    by (simp add: HasherTask_new_def stats0_def)
  have b: "hash False h = Inl (RuntimeError ''Gerbil Error! Method not callable without GPU support!'')"
    if "numThreads h \<noteq> 0"
  proof -
    from that have "0 < unat (numThreads h)" by (simp add: unat_gt_0)
    then have "[0..<unat (numThreads h)] \<noteq> []" by simp
    then show ?thesis unfolding hash_def by (rule spawn_no_gpu)
  qed
  have c: "hash True h = Inr (map of_nat [0..<unat (numThreads h)])"
    by (simp add: hash_def spawn_gpu)
  have "isl (HasherTask_new True newTable gmc uc n d thr) =
     isl (create_tables newTable gmc uc thr [0..<unat n] [] d)"
    by (simp add: HasherTask_new_def split: sum.splits prod.splits)
  then have e: "isl (HasherTask_new True newTable gmc uc n d thr) =
     (\<exists>i<unat n. isl (newTable (of_nat i) thr))"
    by (auto simp add: create_tables_fails)
  from a b c e show ?thesis by blast
qed

theorem configuration_failure_witness:
  "numThreads \<lparr>numThreads = 1, thresholdMin = 2, tables = [] :: u64 list,
      kmerDistributer = [] :: u64 list, counters = stats0\<rparr> \<noteq> 0 \<and>
   hash False \<lparr>numThreads = 1, thresholdMin = 2, tables = [] :: u64 list,
      kmerDistributer = [] :: u64 list, counters = stats0\<rparr> =
     Inl (RuntimeError ''Gerbil Error! Method not callable without GPU support!'')"
  using configuration_failure [of demo_newTable demo_getMaxCapacity demo_updateCapacity 1 "[]" 2
     "\<lparr>numThreads = 1, thresholdMin = 2, tables = [] :: u64 list,
      kmerDistributer = [] :: u64 list, counters = stats0\<rparr>"]
  by simp

end
